theory Spec2Isabelle
  imports Complex_Main "HOL-Library.Sublist"
begin

section \<open>The data model of \<^verbatim>\<open>app/models.py\<close>\<close>

text \<open>
  The module declares two enumerations, three persisted tables and a set of validation
  schemas. Every class is a \<^verbatim>\<open>SQLModel\<close>; the classes with \<^verbatim>\<open>table=True\<close> are table
  declarations, the classes with \<^verbatim>\<open>table=False\<close> are validated on construction.

  Conventions of the embedding:
  \<^item> a Python \<^verbatim>\<open>str\<close> is a \<open>string\<close>, and \<^verbatim>\<open>max_length\<close> counts its characters;
  \<^item> an \<^verbatim>\<open>int\<close> is an \<open>int\<close>, a \<^verbatim>\<open>float\<close> (only ever stored here) a \<open>real\<close>;
  \<^item> a naive \<^verbatim>\<open>datetime\<close> is the number of microseconds since \<^verbatim>\<open>datetime.min\<close>;
  \<^item> \<^verbatim>\<open>Optional[T]\<close> is \<open>T option\<close>, with \<^verbatim>\<open>None\<close> as \<open>None\<close>;
  \<^item> the fields of a class carry a prefix, since several classes share field names:
    \<open>ss_\<close> for \<^verbatim>\<open>ScanSession\<close>, \<open>wr_\<close> for \<^verbatim>\<open>WebResource\<close>, \<open>dh_\<close> for
    \<^verbatim>\<open>DownloadHistory\<close>, \<open>rq_\<close> for \<^verbatim>\<open>ScanRequest\<close>, \<open>su_\<close> for \<^verbatim>\<open>ScanStatusUpdate\<close>;
  \<^item> a keyword argument that may be left out is an \<open>option\<close> in the record of arguments
    (\<open>None\<close>: the argument is not given, so the declared default applies).
\<close>

type_synonym datetime = nat
type_synonym pyfloat = real

subsection \<open>Enumerations\<close>

datatype ResourceType =
  JSON | JAVASCRIPT | XML | YAML | CSS | IMAGE | HTML | TEXT | PDF | OTHER

text \<open>The value of each member, as the class body assigns it.\<close>

fun ResourceType_value :: "ResourceType \<Rightarrow> string" where
  "ResourceType_value JSON = ''json''"
| "ResourceType_value JAVASCRIPT = ''js''"
| "ResourceType_value XML = ''xml''"
| "ResourceType_value YAML = ''yml''"
| "ResourceType_value CSS = ''css''"
| "ResourceType_value IMAGE = ''image''"
| "ResourceType_value HTML = ''html''"
| "ResourceType_value TEXT = ''txt''"
| "ResourceType_value PDF = ''pdf''"
| "ResourceType_value OTHER = ''other''"

text \<open>The members in definition order (what iterating the class yields).\<close>

definition ResourceType_members :: "ResourceType list" where
  "ResourceType_members = [JSON, JAVASCRIPT, XML, YAML, CSS, IMAGE, HTML, TEXT, PDF, OTHER]"

text \<open>
  Lookup by value, \<^verbatim>\<open>ResourceType(s)\<close>: the first member whose value is \<open>s\<close>; Python
  raises \<^verbatim>\<open>ValueError\<close> when there is none, here \<open>None\<close>.
\<close>

definition ResourceType_of_value :: "string \<Rightarrow> ResourceType option" where
  "ResourceType_of_value s = find (\<lambda>m. ResourceType_value m = s) ResourceType_members"

datatype ScanStatus = PENDING | IN_PROGRESS | COMPLETED | FAILED

fun ScanStatus_value :: "ScanStatus \<Rightarrow> string" where
  "ScanStatus_value PENDING = ''pending''"
| "ScanStatus_value IN_PROGRESS = ''in_progress''"
| "ScanStatus_value COMPLETED = ''completed''"
| "ScanStatus_value FAILED = ''failed''"

subsection \<open>Persisted models\<close>

record ScanSession =
  ss_id :: "int option"
  ss_target_url :: string
  ss_status :: ScanStatus
  ss_username :: "string option"
  ss_password :: "string option"
  ss_auth_token :: "string option"
  ss_payload :: "string option"
  ss_created_at :: datetime
  ss_completed_at :: "datetime option"
  ss_error_message :: "string option"
  ss_total_resources_found :: int
  ss_scan_duration_seconds :: "pyfloat option"

record WebResource =
  wr_id :: "int option"
  wr_scan_session_id :: int
  wr_url :: string
  wr_relative_path :: string
  wr_resource_type :: ResourceType
  wr_file_extension :: string
  wr_content_type :: "string option"
  wr_file_size_bytes :: "int option"
  wr_last_modified :: "datetime option"
  wr_is_downloadable :: bool
  wr_download_attempts :: int
  wr_last_download_at :: "datetime option"
  wr_discovered_at :: datetime
  wr_source_element :: "string option"

record DownloadHistory =
  dh_id :: "int option"
  dh_resource_id :: int
  dh_downloaded_at :: datetime
  dh_file_size_bytes :: "int option"
  dh_download_duration_seconds :: "pyfloat option"
  dh_success :: bool
  dh_error_message :: "string option"
  dh_client_ip :: "string option"
  dh_user_agent :: "string option"

subsection \<open>Constructing a table model\<close>

text \<open>
  A class with \<^verbatim>\<open>table=True\<close> is constructed without validation: each keyword argument
  is stored as given, and a field that is not given takes its \<^verbatim>\<open>default\<close>, or the result
  of its \<^verbatim>\<open>default_factory\<close>. The only factory in the module is \<^verbatim>\<open>datetime.utcnow\<close>; its
  result is the argument \<open>now\<close> of the constructors. In particular \<^verbatim>\<open>max_length\<close> on a
  field of a table model sizes the column and checks nothing at construction.
  Fields declared without a default are the required arguments.
\<close>

record ScanSession_kwargs =
  ssk_id :: "int option"
  ssk_target_url :: string
  ssk_status :: "ScanStatus option"
  ssk_username :: "string option"
  ssk_password :: "string option"
  ssk_auth_token :: "string option"
  ssk_payload :: "string option"
  ssk_created_at :: "datetime option"
  ssk_completed_at :: "datetime option"
  ssk_error_message :: "string option"
  ssk_total_resources_found :: "int option"
  ssk_scan_duration_seconds :: "pyfloat option"

definition ScanSession_init :: "datetime \<Rightarrow> ScanSession_kwargs \<Rightarrow> ScanSession" where
  "ScanSession_init now k =
     \<lparr> ss_id = ssk_id k,
       ss_target_url = ssk_target_url k,
       ss_status = (case ssk_status k of None \<Rightarrow> PENDING | Some s \<Rightarrow> s),
       ss_username = ssk_username k,
       ss_password = ssk_password k,
       ss_auth_token = ssk_auth_token k,
       ss_payload = ssk_payload k,
       ss_created_at = (case ssk_created_at k of None \<Rightarrow> now | Some t \<Rightarrow> t),
       ss_completed_at = ssk_completed_at k,
       ss_error_message = ssk_error_message k,
       ss_total_resources_found = (case ssk_total_resources_found k of None \<Rightarrow> 0 | Some n \<Rightarrow> n),
       ss_scan_duration_seconds = ssk_scan_duration_seconds k \<rparr>"

record WebResource_kwargs =
  wrk_id :: "int option"
  wrk_scan_session_id :: int
  wrk_url :: string
  wrk_relative_path :: string
  wrk_resource_type :: ResourceType
  wrk_file_extension :: string
  wrk_content_type :: "string option"
  wrk_file_size_bytes :: "int option"
  wrk_last_modified :: "datetime option"
  wrk_is_downloadable :: "bool option"
  wrk_download_attempts :: "int option"
  wrk_last_download_at :: "datetime option"
  wrk_discovered_at :: "datetime option"
  wrk_source_element :: "string option"

definition WebResource_init :: "datetime \<Rightarrow> WebResource_kwargs \<Rightarrow> WebResource" where
  "WebResource_init now k =
     \<lparr> wr_id = wrk_id k,
       wr_scan_session_id = wrk_scan_session_id k,
       wr_url = wrk_url k,
       wr_relative_path = wrk_relative_path k,
       wr_resource_type = wrk_resource_type k,
       wr_file_extension = wrk_file_extension k,
       wr_content_type = wrk_content_type k,
       wr_file_size_bytes = wrk_file_size_bytes k,
       wr_last_modified = wrk_last_modified k,
       wr_is_downloadable = (case wrk_is_downloadable k of None \<Rightarrow> True | Some b \<Rightarrow> b),
       wr_download_attempts = (case wrk_download_attempts k of None \<Rightarrow> 0 | Some n \<Rightarrow> n),
       wr_last_download_at = wrk_last_download_at k,
       wr_discovered_at = (case wrk_discovered_at k of None \<Rightarrow> now | Some t \<Rightarrow> t),
       wr_source_element = wrk_source_element k \<rparr>"

record DownloadHistory_kwargs =
  dhk_id :: "int option"
  dhk_resource_id :: int
  dhk_downloaded_at :: "datetime option"
  dhk_file_size_bytes :: "int option"
  dhk_download_duration_seconds :: "pyfloat option"
  dhk_success :: "bool option"
  dhk_error_message :: "string option"
  dhk_client_ip :: "string option"
  dhk_user_agent :: "string option"

definition DownloadHistory_init :: "datetime \<Rightarrow> DownloadHistory_kwargs \<Rightarrow> DownloadHistory" where
  "DownloadHistory_init now k =
     \<lparr> dh_id = dhk_id k,
       dh_resource_id = dhk_resource_id k,
       dh_downloaded_at = (case dhk_downloaded_at k of None \<Rightarrow> now | Some t \<Rightarrow> t),
       dh_file_size_bytes = dhk_file_size_bytes k,
       dh_download_duration_seconds = dhk_download_duration_seconds k,
       dh_success = (case dhk_success k of None \<Rightarrow> True | Some b \<Rightarrow> b),
       dh_error_message = dhk_error_message k,
       dh_client_ip = dhk_client_ip k,
       dh_user_agent = dhk_user_agent k \<rparr>"

section \<open>Validated schemas\<close>

datatype error = ValidationError | IntegrityError | DataError

subsection \<open>The regular expression of \<^verbatim>\<open>ScanRequest.target_url\<close>\<close>

text \<open>
  The field is declared with
  \<^verbatim>\<open>regex=r"^https?://[^\s/$.?#].[^\s]*$"\<close>.
  This subsection defines what the declared pattern accepts; whether a \<^verbatim>\<open>ScanRequest\<close> is
  checked against it is the matter of \<open>ScanRequest_init\<close> below.
  The pattern uses literals, the dot, two negated character classes, \<^verbatim>\<open>?\<close>, \<^verbatim>\<open>*\<close> and
  the two anchors. Two points of it depend on the library that matches it (the \<^verbatim>\<open>re\<close>
  module of Python, or the regex engine of the validation library): the characters that
  \<^verbatim>\<open>\s\<close> stands for, and whether \<^verbatim>\<open>$\<close> also matches just before a newline that ends the
  string (it does in \<^verbatim>\<open>re\<close>). Both are fields of a \<open>regex_engine\<close>, and the matcher takes
  the engine as an argument. A \<open>char\<close> stands for a code point below 256.
\<close>

record regex_engine =
  space :: "char \<Rightarrow> bool"
  dollar_before_newline :: bool

definition newline :: char where
  "newline = CHR 0x0A"

definition python_re :: regex_engine where
  "python_re =
     \<lparr> space = (\<lambda>c. c \<in> set [CHR 0x09, CHR 0x0A, CHR 0x0B, CHR 0x0C, CHR 0x0D, CHR 0x1C,
                                 CHR 0x1D, CHR 0x1E, CHR 0x1F, CHR 0x20, CHR 0x85, CHR 0xA0]),
       dollar_before_newline = True \<rparr>"

definition rust_regex :: regex_engine where
  "rust_regex =
     \<lparr> space = (\<lambda>c. c \<in> set [CHR 0x09, CHR 0x0A, CHR 0x0B, CHR 0x0C, CHR 0x0D, CHR 0x20,
                                 CHR 0x85, CHR 0xA0]),
       dollar_before_newline = False \<rparr>"

text \<open>
  One character of a pattern: a literal, the dot (any character but a newline), or a
  negated class \<^verbatim>\<open>[^...]\<close>, given by whether it lists \<^verbatim>\<open>\s\<close> and by the characters it
  lists.
\<close>

datatype atom = Lit char | Dot | NotIn bool "char list"

datatype regex =
  Zero | One | Atom atom | Alt regex regex | Seq regex regex | Opt regex | Star regex

fun atom_ok :: "regex_engine \<Rightarrow> atom \<Rightarrow> char \<Rightarrow> bool" where
  "atom_ok e (Lit a) c = (c = a)"
| "atom_ok e Dot c = (c \<noteq> newline)"
| "atom_ok e (NotIn sp cs) c = (c \<notin> set cs \<and> \<not> (sp \<and> space e c))"

text \<open>Matching by derivatives: \<open>deriv e c r\<close> matches what \<open>r\<close> matches after a \<open>c\<close>.\<close>

fun nullable :: "regex \<Rightarrow> bool" where
  "nullable Zero = False"
| "nullable One = True"
| "nullable (Atom a) = False"
| "nullable (Alt r s) = (nullable r \<or> nullable s)"
| "nullable (Seq r s) = (nullable r \<and> nullable s)"
| "nullable (Opt r) = True"
| "nullable (Star r) = True"

fun deriv :: "regex_engine \<Rightarrow> char \<Rightarrow> regex \<Rightarrow> regex" where
  "deriv e c Zero = Zero"
| "deriv e c One = Zero"
| "deriv e c (Atom a) = (if atom_ok e a c then One else Zero)"
| "deriv e c (Alt r s) = Alt (deriv e c r) (deriv e c s)"
| "deriv e c (Seq r s) =
     (if nullable r then Alt (Seq (deriv e c r) s) (deriv e c s) else Seq (deriv e c r) s)"
| "deriv e c (Opt r) = deriv e c r"
| "deriv e c (Star r) = Seq (deriv e c r) (Star r)"

fun derivs :: "regex_engine \<Rightarrow> string \<Rightarrow> regex \<Rightarrow> regex" where
  "derivs e [] r = r"
| "derivs e (c # cs) r = derivs e cs (deriv e c r)"

definition fullmatch :: "regex_engine \<Rightarrow> regex \<Rightarrow> string \<Rightarrow> bool" where
  "fullmatch e r s = nullable (derivs e s r)"

text \<open>
  Whether \<^verbatim>\<open>^r$\<close> matches \<open>s\<close>: \<open>r\<close> matches all of \<open>s\<close>, or, where \<^verbatim>\<open>$\<close> also stands before
  a final newline, \<open>s\<close> ends with a newline and \<open>r\<close> matches all that is before it.
\<close>

definition anchored_match :: "regex_engine \<Rightarrow> regex \<Rightarrow> string \<Rightarrow> bool" where
  "anchored_match e r s =
     (fullmatch e r s \<or>
      (dollar_before_newline e \<and> s \<noteq> [] \<and> last s = newline \<and> fullmatch e r (butlast s)))"

fun lits :: "string \<Rightarrow> regex \<Rightarrow> regex" where
  "lits [] r = r"
| "lits (c # cs) r = Seq (Atom (Lit c)) (lits cs r)"

text \<open>
  The pattern between its anchors:
  \<^verbatim>\<open>http\<close>, \<^verbatim>\<open>s?\<close>, \<^verbatim>\<open>://\<close>, \<^verbatim>\<open>[^\s/$.?#]\<close>, \<^verbatim>\<open>.\<close>, \<^verbatim>\<open>[^\s]*\<close>.
\<close>

definition target_url_regex :: regex where
  "target_url_regex =
     lits ''http'' (Seq (Opt (Atom (Lit CHR ''s''))) (lits ''://''
       (Seq (Atom (NotIn True ''/$.?#'')) (Seq (Atom Dot) (Star (Atom (NotIn True '''')))))))"

subsection \<open>What a pattern denotes\<close>

text \<open>
  The set of strings a pattern stands for, independent of the matcher; the matcher is
  proved to decide it below.
\<close>

definition conc :: "string set \<Rightarrow> string set \<Rightarrow> string set" where
  "conc A B = {xs @ ys | xs ys. xs \<in> A \<and> ys \<in> B}"

inductive_set star :: "string set \<Rightarrow> string set" for A :: "string set" where
  star_empty: "[] \<in> star A"
| star_app: "xs \<in> A \<Longrightarrow> ys \<in> star A \<Longrightarrow> xs @ ys \<in> star A"

fun lang :: "regex_engine \<Rightarrow> regex \<Rightarrow> string set" where
  "lang e Zero = {}"
| "lang e One = {[]}"
| "lang e (Atom a) = {[c] | c. atom_ok e a c}"
| "lang e (Alt r s) = lang e r \<union> lang e s"
| "lang e (Seq r s) = conc (lang e r) (lang e s)"
| "lang e (Opt r) = insert [] (lang e r)"
| "lang e (Star r) = star (lang e r)"

definition anchored_lang :: "regex_engine \<Rightarrow> regex \<Rightarrow> string set" where
  "anchored_lang e r =
     lang e r \<union> (if dollar_before_newline e then {s @ [newline] | s. s \<in> lang e r} else {})"

subsection \<open>\<^verbatim>\<open>ScanRequest\<close> and \<^verbatim>\<open>ScanStatusUpdate\<close>\<close>

text \<open>
  A class with \<^verbatim>\<open>table=False\<close> validates its arguments on construction and raises
  \<^verbatim>\<open>ValidationError\<close> when a field breaks a constraint of its schema. The \<^verbatim>\<open>max_length\<close> of
  a field is such a constraint. The \<^verbatim>\<open>regex\<close> of \<^verbatim>\<open>target_url\<close> is not: \<^verbatim>\<open>Field\<close> hands the
  keyword on to the field information of the validation library, and the version of
  that library under which table models are constructed without validation (the
  constructors above) knows this constraint as \<^verbatim>\<open>pattern\<close> and takes none from \<^verbatim>\<open>regex\<close>.
  The pattern is declared and never matched, so \<open>ScanRequest_init\<close> checks lengths only.
\<close>

definition max_length_ok :: "nat \<Rightarrow> string option \<Rightarrow> bool" where
  "max_length_ok n v = (case v of None \<Rightarrow> True | Some s \<Rightarrow> length s \<le> n)"

record ScanRequest =
  rq_target_url :: string
  rq_username :: "string option"
  rq_password :: "string option"
  rq_auth_token :: "string option"
  rq_payload :: "string option"

definition ScanRequest_init ::
  "string \<Rightarrow> string option \<Rightarrow> string option \<Rightarrow> string option \<Rightarrow> string option
     \<Rightarrow> error + ScanRequest" where
  "ScanRequest_init target_url username password auth_token payload =
     (if max_length_ok 2048 (Some target_url)
         \<and> max_length_ok 255 username \<and> max_length_ok 255 password
         \<and> max_length_ok 1024 auth_token \<and> max_length_ok 10000 payload
      then Inr \<lparr> rq_target_url = target_url, rq_username = username, rq_password = password,
                 rq_auth_token = auth_token, rq_payload = payload \<rparr>
      else Inl ValidationError)"

record ScanStatusUpdate =
  su_status :: ScanStatus
  su_error_message :: "string option"
  su_total_resources_found :: "int option"
  su_scan_duration_seconds :: "pyfloat option"

definition ScanStatusUpdate_init ::
  "ScanStatus \<Rightarrow> string option \<Rightarrow> int option \<Rightarrow> pyfloat option \<Rightarrow> error + ScanStatusUpdate" where
  "ScanStatusUpdate_init status error_message total_resources_found scan_duration_seconds =
     (if max_length_ok 1000 error_message
      then Inr \<lparr> su_status = status, su_error_message = error_message,
                 su_total_resources_found = total_resources_found,
                 su_scan_duration_seconds = scan_duration_seconds \<rparr>
      else Inl ValidationError)"


section \<open>The tables\<close>

text \<open>
  The three classes with \<^verbatim>\<open>table=True\<close> declare the tables \<^verbatim>\<open>scan_sessions\<close>,
  \<^verbatim>\<open>web_resources\<close> and \<^verbatim>\<open>download_history\<close>. What a table enforces is what its class
  declares: the primary key (\<^verbatim>\<open>primary_key=True\<close>), the foreign keys
  (\<^verbatim>\<open>foreign_key="table.column"\<close>), and the unique constraints (\<^verbatim>\<open>unique=True\<close> on a field,
  or a \<^verbatim>\<open>UniqueConstraint\<close> in \<^verbatim>\<open>__table_args__\<close>). The module declares one primary key per
  table, two foreign keys, and no unique constraint; no foreign key names an
  \<^verbatim>\<open>ondelete\<close> action and no \<^verbatim>\<open>Relationship\<close> names a cascade, so the action on deletion is
  the default one of SQL, \<^verbatim>\<open>NO ACTION\<close>. \<^verbatim>\<open>index=True\<close> adds an index and constrains nothing.

  The declarations are data (\<open>table_decl\<close>), and inserting and deleting are written
  once, for any declaration: they check what the declaration of the table lists.
\<close>

datatype sqlval =
  SqlNull | SqlInt int | SqlStr string | SqlBool bool | SqlTime datetime | SqlFloat pyfloat
  | SqlResourceType ResourceType | SqlStatus ScanStatus

type_synonym row = "(string \<times> sqlval) list"

fun opt_val :: "('a \<Rightarrow> sqlval) \<Rightarrow> 'a option \<Rightarrow> sqlval" where
  "opt_val f None = SqlNull"
| "opt_val f (Some x) = f x"

definition ScanSession_row :: "ScanSession \<Rightarrow> row" where
  "ScanSession_row s =
     [(''id'', opt_val SqlInt (ss_id s)),
      (''target_url'', SqlStr (ss_target_url s)),
      (''status'', SqlStatus (ss_status s)),
      (''username'', opt_val SqlStr (ss_username s)),
      (''password'', opt_val SqlStr (ss_password s)),
      (''auth_token'', opt_val SqlStr (ss_auth_token s)),
      (''payload'', opt_val SqlStr (ss_payload s)),
      (''created_at'', SqlTime (ss_created_at s)),
      (''completed_at'', opt_val SqlTime (ss_completed_at s)),
      (''error_message'', opt_val SqlStr (ss_error_message s)),
      (''total_resources_found'', SqlInt (ss_total_resources_found s)),
      (''scan_duration_seconds'', opt_val SqlFloat (ss_scan_duration_seconds s))]"

definition WebResource_row :: "WebResource \<Rightarrow> row" where
  "WebResource_row r =
     [(''id'', opt_val SqlInt (wr_id r)),
      (''scan_session_id'', SqlInt (wr_scan_session_id r)),
      (''url'', SqlStr (wr_url r)),
      (''relative_path'', SqlStr (wr_relative_path r)),
      (''resource_type'', SqlResourceType (wr_resource_type r)),
      (''file_extension'', SqlStr (wr_file_extension r)),
      (''content_type'', opt_val SqlStr (wr_content_type r)),
      (''file_size_bytes'', opt_val SqlInt (wr_file_size_bytes r)),
      (''last_modified'', opt_val SqlTime (wr_last_modified r)),
      (''is_downloadable'', SqlBool (wr_is_downloadable r)),
      (''download_attempts'', SqlInt (wr_download_attempts r)),
      (''last_download_at'', opt_val SqlTime (wr_last_download_at r)),
      (''discovered_at'', SqlTime (wr_discovered_at r)),
      (''source_element'', opt_val SqlStr (wr_source_element r))]"

definition DownloadHistory_row :: "DownloadHistory \<Rightarrow> row" where
  "DownloadHistory_row h =
     [(''id'', opt_val SqlInt (dh_id h)),
      (''resource_id'', SqlInt (dh_resource_id h)),
      (''downloaded_at'', SqlTime (dh_downloaded_at h)),
      (''file_size_bytes'', opt_val SqlInt (dh_file_size_bytes h)),
      (''download_duration_seconds'', opt_val SqlFloat (dh_download_duration_seconds h)),
      (''success'', SqlBool (dh_success h)),
      (''error_message'', opt_val SqlStr (dh_error_message h)),
      (''client_ip'', opt_val SqlStr (dh_client_ip h)),
      (''user_agent'', opt_val SqlStr (dh_user_agent h))]"

datatype ondelete = NO_ACTION | CASCADE

record foreign_key =
  fk_column :: string
  fk_table :: string
  fk_target :: string
  fk_ondelete :: ondelete

record table_decl =
  td_name :: string
  td_primary_key :: string
  td_foreign_keys :: "foreign_key list"
  td_unique :: "string list list"

definition scan_sessions_decl :: table_decl where
  "scan_sessions_decl =
     \<lparr> td_name = ''scan_sessions'', td_primary_key = ''id'', td_foreign_keys = [],
       td_unique = [] \<rparr>"

definition web_resources_decl :: table_decl where
  "web_resources_decl =
     \<lparr> td_name = ''web_resources'', td_primary_key = ''id'',
       td_foreign_keys =
         [\<lparr> fk_column = ''scan_session_id'', fk_table = ''scan_sessions'', fk_target = ''id'',
            fk_ondelete = NO_ACTION \<rparr>],
       td_unique = [] \<rparr>"


subsection \<open>Checking a row against a declaration\<close>

definition col :: "row \<Rightarrow> string \<Rightarrow> sqlval" where
  "col r c = (case map_of r c of None \<Rightarrow> SqlNull | Some v \<Rightarrow> v)"

definition key :: "string list \<Rightarrow> row \<Rightarrow> sqlval list" where
  "key cs r = map (col r) cs"

text \<open>
  A row conflicts on a list of columns with a stored row that has the same values in
  all of them; a null in one of the columns never conflicts.
\<close>

definition unique_conflict :: "string list \<Rightarrow> row list \<Rightarrow> row \<Rightarrow> bool" where
  "unique_conflict cs rows r =
     (SqlNull \<notin> set (key cs r) \<and> list_ex (\<lambda>r'. key cs r' = key cs r) rows)"

definition violates_unique :: "table_decl \<Rightarrow> row list \<Rightarrow> row \<Rightarrow> bool" where
  "violates_unique t rows r =
     list_ex (\<lambda>cs. unique_conflict cs rows r) ([td_primary_key t] # td_unique t)"

definition violates_foreign_key :: "(string \<Rightarrow> row list) \<Rightarrow> table_decl \<Rightarrow> row \<Rightarrow> bool" where
  "violates_foreign_key tables t r =
     list_ex (\<lambda>fk. col r (fk_column fk) \<noteq> SqlNull
                  \<and> \<not> list_ex (\<lambda>p. col p (fk_target fk) = col r (fk_column fk))
                        (tables (fk_table fk)))
       (td_foreign_keys t)"

text \<open>
  Whether a row refers to the value \<open>v\<close> of \<open>column\<close> of \<open>table\<close>, through a foreign key
  of its table with the given action on deletion.
\<close>

definition refers_to :: "table_decl \<Rightarrow> string \<Rightarrow> string \<Rightarrow> sqlval \<Rightarrow> ondelete \<Rightarrow> row \<Rightarrow> bool" where
  "refers_to t table column v act r =
     list_ex (\<lambda>fk. fk_table fk = table \<and> fk_target fk = column \<and> fk_ondelete fk = act
                  \<and> col r (fk_column fk) = v)
       (td_foreign_keys t)"

subsection \<open>The store and its operations\<close>

record db =
  scan_sessions :: "ScanSession list"
  web_resources :: "WebResource list"
  download_history :: "DownloadHistory list"

definition empty_db :: db where
  "empty_db = \<lparr> scan_sessions = [], web_resources = [], download_history = [] \<rparr>"

definition db_rows :: "db \<Rightarrow> string \<Rightarrow> row list" where
  "db_rows d t =
     (if t = ''scan_sessions'' then map ScanSession_row (scan_sessions d)
      else if t = ''web_resources'' then map WebResource_row (web_resources d)
      else if t = ''download_history'' then map DownloadHistory_row (download_history d)
      else [])"

text \<open>
  An integer primary key that is \<^verbatim>\<open>None\<close> when the row is inserted is assigned by the
  database: the next integer above the ids in the table.
\<close>

definition next_id :: "int option list \<Rightarrow> int" where
  "next_id ids = 1 + foldr (\<lambda>i m. case i of None \<Rightarrow> m | Some j \<Rightarrow> max j m) ids 0"

definition insert_scan_session :: "db \<Rightarrow> ScanSession \<Rightarrow> error + db" where
  "insert_scan_session d s0 =
     (let s = (case ss_id s0 of
                 None \<Rightarrow> s0\<lparr>ss_id := Some (next_id (map ss_id (scan_sessions d)))\<rparr>
               | Some i \<Rightarrow> s0)
      in if violates_unique scan_sessions_decl (db_rows d (td_name scan_sessions_decl))
              (ScanSession_row s)
            \<or> violates_foreign_key (db_rows d) scan_sessions_decl (ScanSession_row s)
         then Inl IntegrityError
         else Inr (d\<lparr>scan_sessions := scan_sessions d @ [s]\<rparr>))"

text \<open>
  Inserting into \<^verbatim>\<open>web_resources\<close> and deleting from \<^verbatim>\<open>scan_sessions\<close> take the declaration
  of \<^verbatim>\<open>web_resources\<close> as an argument, so that what follows from the declaration of the
  module can be told from what another declaration would give.
\<close>

definition insert_web_resource_under :: "table_decl \<Rightarrow> db \<Rightarrow> WebResource \<Rightarrow> error + db" where
  "insert_web_resource_under t d r0 =
     (let r = (case wr_id r0 of
                 None \<Rightarrow> r0\<lparr>wr_id := Some (next_id (map wr_id (web_resources d)))\<rparr>
               | Some i \<Rightarrow> r0)
      in if violates_unique t (db_rows d (td_name t)) (WebResource_row r)
            \<or> violates_foreign_key (db_rows d) t (WebResource_row r)
         then Inl IntegrityError
         else Inr (d\<lparr>web_resources := web_resources d @ [r]\<rparr>))"

definition insert_web_resource :: "db \<Rightarrow> WebResource \<Rightarrow> error + db" where
  "insert_web_resource d r = insert_web_resource_under web_resources_decl d r"

text \<open>
  Deleting the session with id \<open>sid\<close>. A web resource that refers to it through a foreign
  key with \<^verbatim>\<open>NO ACTION\<close> makes the deletion fail, and nothing is deleted; web resources
  that refer to it through a foreign key with \<^verbatim>\<open>CASCADE\<close> are deleted with it. (The
  declaration of \<^verbatim>\<open>web_resources\<close> in the module has no foreign key of the second kind, so
  how such a deletion would go on to \<^verbatim>\<open>download_history\<close> is left out.)
\<close>

definition delete_scan_session_under :: "table_decl \<Rightarrow> db \<Rightarrow> int \<Rightarrow> error + db" where
  "delete_scan_session_under t d sid =
     (if list_ex (\<lambda>r. refers_to t (td_name scan_sessions_decl)
                        (td_primary_key scan_sessions_decl) (SqlInt sid) NO_ACTION
                        (WebResource_row r))
           (web_resources d)
      then Inl IntegrityError
      else Inr (d\<lparr> scan_sessions := filter (\<lambda>s. ss_id s \<noteq> Some sid) (scan_sessions d),
                   web_resources :=
                     filter (\<lambda>r. \<not> refers_to t (td_name scan_sessions_decl)
                                     (td_primary_key scan_sessions_decl) (SqlInt sid) CASCADE
                                     (WebResource_row r))
                       (web_resources d) \<rparr>))"

definition delete_scan_session :: "db \<Rightarrow> int \<Rightarrow> error + db" where
  "delete_scan_session d sid = delete_scan_session_under web_resources_decl d sid"


subsection \<open>Declared column sizes\<close>










text \<open>
  The invariant of the store: ids are assigned and pairwise different within a table,
  and every web resource refers to a session of the store.
\<close>

definition wf_db :: "db \<Rightarrow> bool" where
  "wf_db d =
     (distinct (map ss_id (scan_sessions d)) \<and> None \<notin> set (map ss_id (scan_sessions d))
      \<and> distinct (map wr_id (web_resources d)) \<and> None \<notin> set (map wr_id (web_resources d))
      \<and> list_all (\<lambda>r. Some (wr_scan_session_id r) \<in> set (map ss_id (scan_sessions d)))
           (web_resources d))"

definition session_url :: "WebResource \<Rightarrow> int \<times> string" where
  "session_url r = (wr_scan_session_id r, wr_url r)"

subsection \<open>A small store\<close>

definition ex_session_kwargs :: ScanSession_kwargs where
  "ex_session_kwargs =
     \<lparr> ssk_id = None, ssk_target_url = ''https://example.com'', ssk_status = None,
       ssk_username = None, ssk_password = None, ssk_auth_token = None, ssk_payload = None,
       ssk_created_at = None, ssk_completed_at = None, ssk_error_message = None,
       ssk_total_resources_found = None, ssk_scan_duration_seconds = None \<rparr>"

definition ex_session :: ScanSession where
  "ex_session = ScanSession_init 0 ex_session_kwargs"

definition ex_resource_kwargs :: WebResource_kwargs where
  "ex_resource_kwargs =
     \<lparr> wrk_id = None, wrk_scan_session_id = 1, wrk_url = ''https://example.com/a.png'',
       wrk_relative_path = ''/a.png'', wrk_resource_type = IMAGE, wrk_file_extension = ''png'',
       wrk_content_type = None, wrk_file_size_bytes = None, wrk_last_modified = None,
       wrk_is_downloadable = None, wrk_download_attempts = None, wrk_last_download_at = None,
       wrk_discovered_at = None, wrk_source_element = Some ''img'' \<rparr>"

definition ex_resource :: WebResource where
  "ex_resource = WebResource_init 0 ex_resource_kwargs"






definition ex_db1 :: db where
  "ex_db1 = \<lparr> scan_sessions = [ex_session\<lparr>ss_id := Some 1\<rparr>], web_resources = [],
              download_history = [] \<rparr>"

definition ex_db2 :: db where
  "ex_db2 = ex_db1\<lparr>web_resources := [ex_resource\<lparr>wr_id := Some 1\<rparr>]\<rparr>"

definition ex_db3 :: db where
  "ex_db3 = ex_db1\<lparr>web_resources := [ex_resource\<lparr>wr_id := Some 1\<rparr>, ex_resource\<lparr>wr_id := Some 2\<rparr>]\<rparr>"


section \<open>The life cycle of a scan session\<close>

text \<open>
  Modelled from the spec: the transitions of the status of a session, made by the scan
  orchestrator, which is not part of the module (the module declares the enumeration
  \<^verbatim>\<open>ScanStatus\<close> and the field \<^verbatim>\<open>ScanSession.status\<close> only). The spec gives the state machine
  as \<^verbatim>\<open>pending -> in_progress -> {completed, failed}\<close>, with the terminal states final.
\<close>

fun status_step :: "ScanStatus \<Rightarrow> ScanStatus \<Rightarrow> bool" where
  "status_step PENDING IN_PROGRESS = True"
| "status_step IN_PROGRESS COMPLETED = True"
| "status_step IN_PROGRESS FAILED = True"
| "status_step a b = False"

text \<open>
  Modelled from the spec: the terminal states, completed and failed.
\<close>

definition terminal :: "ScanStatus \<Rightarrow> bool" where
  "terminal a = (a = COMPLETED \<or> a = FAILED)"

text \<open>
  Modelled from the spec: the position of a status in the order of the life cycle, the
  two terminal states sharing the last position.
\<close>

fun status_rank :: "ScanStatus \<Rightarrow> nat" where
  "status_rank PENDING = 0"
| "status_rank IN_PROGRESS = 1"
| "status_rank COMPLETED = 2"
| "status_rank FAILED = 2"

section \<open>Enumerations and defaults\<close>

lemma ResourceType_exhaust_list: "t \<in> set ResourceType_members"
  by (cases t) (simp_all add: ResourceType_members_def)

lemma ResourceType_UNIV: "(UNIV :: ResourceType set) = set ResourceType_members"
  using ResourceType_exhaust_list by blast

lemma ResourceType_value_inj: "ResourceType_value a = ResourceType_value b \<Longrightarrow> a = b"
  by (cases a; cases b) simp_all

lemma ResourceType_of_value_value: "ResourceType_of_value (ResourceType_value t) = Some t"
  by (cases t) (simp_all add: ResourceType_of_value_def ResourceType_members_def)

lemma ResourceType_of_value_Some:
  "ResourceType_of_value s = Some t \<Longrightarrow> ResourceType_value t = s"
  unfolding ResourceType_of_value_def by (auto dest: find_Some_iff [THEN iffD1])

text \<open>
  C6. The resource type of a web resource is one of ten members, whose values are
  json, js, xml, yml, css, image, html, txt, pdf and other: the field of every
  \<open>WebResource\<close> is one of the ten, the ten values are pairwise different, and a
  string is the value of a member exactly when it is one of the ten.
\<close>

theorem ResourceType_closed:
  "wr_resource_type r \<in> set ResourceType_members
   \<and> ResourceType_value (wr_resource_type r)
       \<in> set [''json'', ''js'', ''xml'', ''yml'', ''css'', ''image'', ''html'', ''txt'', ''pdf'', ''other'']
   \<and> map ResourceType_value ResourceType_members
       = [''json'', ''js'', ''xml'', ''yml'', ''css'', ''image'', ''html'', ''txt'', ''pdf'', ''other'']
   \<and> card (UNIV :: ResourceType set) = 10
   \<and> ((\<exists>t. ResourceType_of_value s = Some t)
        = (s \<in> set [''json'', ''js'', ''xml'', ''yml'', ''css'', ''image'', ''html'', ''txt'', ''pdf'', ''other'']))"
proof -
  have vals: "map ResourceType_value ResourceType_members
       = [''json'', ''js'', ''xml'', ''yml'', ''css'', ''image'', ''html'', ''txt'', ''pdf'', ''other'']"
    by (simp add: ResourceType_members_def)
  have mem: "wr_resource_type r \<in> set ResourceType_members"
    by (rule ResourceType_exhaust_list)
  have "ResourceType_value (wr_resource_type r) \<in> set (map ResourceType_value ResourceType_members)"
    using mem by (simp del: ResourceType_value.simps)
  then have val: "ResourceType_value (wr_resource_type r)
       \<in> set [''json'', ''js'', ''xml'', ''yml'', ''css'', ''image'', ''html'', ''txt'', ''pdf'', ''other'']"
    unfolding vals .
  have "distinct ResourceType_members"
    by (simp add: ResourceType_members_def)
  then have "card (set ResourceType_members) = length ResourceType_members"
    by (rule distinct_card)
  then have card: "card (UNIV :: ResourceType set) = 10"
    unfolding ResourceType_UNIV by (simp add: ResourceType_members_def)
  have look: "(\<exists>t. ResourceType_of_value s = Some t)
        = (s \<in> set (map ResourceType_value ResourceType_members))"
  proof
    assume "\<exists>t. ResourceType_of_value s = Some t"
    then obtain t where "ResourceType_of_value s = Some t" ..
    then have "ResourceType_value t = s" by (rule ResourceType_of_value_Some)
    moreover have "t \<in> set ResourceType_members" by (rule ResourceType_exhaust_list)
    ultimately show "s \<in> set (map ResourceType_value ResourceType_members)"
      by (auto simp del: ResourceType_value.simps)
  next
    assume "s \<in> set (map ResourceType_value ResourceType_members)"
    then obtain t where "s = ResourceType_value t" by auto
    then show "\<exists>t. ResourceType_of_value s = Some t"
      using ResourceType_of_value_value by blast
  qed
  show ?thesis
    using mem val vals card look unfolding vals by blast
qed

text \<open>
  C7. A scan session constructed without a \<^verbatim>\<open>status\<close> argument is pending.
\<close>

theorem ScanSession_default_status:
  "ss_status (ScanSession_init now (k\<lparr>ssk_status := None\<rparr>)) = PENDING"
  by (simp add: ScanSession_init_def)

text \<open>
  C8. A web resource constructed without the three download arguments has made no
  download attempt, has no last download time and is downloadable.
\<close>

theorem WebResource_default_download_state:
  "wr_download_attempts (WebResource_init now
      (k\<lparr>wrk_is_downloadable := None, wrk_download_attempts := None, wrk_last_download_at := None\<rparr>)) = 0
   \<and> wr_last_download_at (WebResource_init now
      (k\<lparr>wrk_is_downloadable := None, wrk_download_attempts := None, wrk_last_download_at := None\<rparr>)) = None
   \<and> wr_is_downloadable (WebResource_init now
      (k\<lparr>wrk_is_downloadable := None, wrk_download_attempts := None, wrk_last_download_at := None\<rparr>)) = True"
  by (simp add: WebResource_init_def)

text \<open>
  C9. A download history entry constructed without a \<^verbatim>\<open>success\<close> argument records a
  successful attempt.
\<close>

theorem DownloadHistory_default_success:
  "dh_success (DownloadHistory_init now (k\<lparr>dhk_success := None\<rparr>)) = True"
  by (simp add: DownloadHistory_init_def)

section \<open>The matcher decides the pattern\<close>

lemma nullable_iff: "nullable r = ([] \<in> lang e r)"
  by (induction r) (auto simp: conc_def intro: star.star_empty)

lemma star_cons:
  assumes "u \<in> star A" and "u = c # w"
  shows "\<exists>xs ys. w = xs @ ys \<and> c # xs \<in> A \<and> ys \<in> star A"
  using assms
proof (induction arbitrary: w rule: star.induct)
  case star_empty
  then show ?case by simp
next
  case (star_app xs ys)
  show ?case
  proof (cases xs)
    case Nil
    with star_app show ?thesis by simp
  next
    case (Cons a as)
    with star_app.prems have "a = c" and "w = as @ ys" by simp_all
    with star_app.hyps Cons show ?thesis by blast
  qed
qed

lemma lang_deriv: "(w \<in> lang e (deriv e c r)) = (c # w \<in> lang e r)"
proof (induction r arbitrary: w)
  case (Seq r s)
  show ?case
  proof
    assume "w \<in> lang e (deriv e c (Seq r s))"
    then consider
        (l) xs ys where "w = xs @ ys" "xs \<in> lang e (deriv e c r)" "ys \<in> lang e s"
      | (r) "nullable r" "w \<in> lang e (deriv e c s)"
      by (auto simp: conc_def split: if_splits)
    then show "c # w \<in> lang e (Seq r s)"
    proof cases
      case l
      then have "c # xs \<in> lang e r" using Seq.IH(1) by simp
      then have "(c # xs) @ ys \<in> conc (lang e r) (lang e s)"
        unfolding conc_def using l(3) by blast
      then show ?thesis using l(1) by simp
    next
      case r
      then have "[] \<in> lang e r" "c # w \<in> lang e s"
        using Seq.IH(2) nullable_iff by auto
      then have "[] @ (c # w) \<in> conc (lang e r) (lang e s)"
        unfolding conc_def by blast
      then show ?thesis by simp
    qed
  next
    assume "c # w \<in> lang e (Seq r s)"
    then obtain xs ys where xy: "c # w = xs @ ys" "xs \<in> lang e r" "ys \<in> lang e s"
      by (auto simp: conc_def)
    show "w \<in> lang e (deriv e c (Seq r s))"
    proof (cases xs)
      case Nil
      with xy have "nullable r" "w \<in> lang e (deriv e c s)"
        using Seq.IH(2) nullable_iff by auto
      then show ?thesis by simp
    next
      case (Cons a as)
      with xy have "as \<in> lang e (deriv e c r)" "w = as @ ys"
        using Seq.IH(1) by auto
      then have "w \<in> conc (lang e (deriv e c r)) (lang e s)"
        unfolding conc_def using xy(3) by blast
      then show ?thesis by simp
    qed
  qed
next
  case (Star r)
  show ?case
  proof
    assume "w \<in> lang e (deriv e c (Star r))"
    then obtain xs ys where "w = xs @ ys" "c # xs \<in> lang e r" "ys \<in> star (lang e r)"
      using Star.IH by (auto simp: conc_def)
    then have "(c # xs) @ ys \<in> star (lang e r)"
      by (blast intro: star.star_app)
    then show "c # w \<in> lang e (Star r)"
      using \<open>w = xs @ ys\<close> by simp
  next
    assume "c # w \<in> lang e (Star r)"
    then have "c # w \<in> star (lang e r)" by simp
    then obtain xs ys where "w = xs @ ys" "c # xs \<in> lang e r" "ys \<in> star (lang e r)"
      using star_cons by blast
    then show "w \<in> lang e (deriv e c (Star r))"
      using Star.IH by (auto simp: conc_def)
  qed
qed (auto simp: conc_def)

lemma fullmatch_iff_lang: "fullmatch e r s = (s \<in> lang e r)"
  unfolding fullmatch_def
  by (induction s arbitrary: r) (simp_all add: nullable_iff lang_deriv)

lemma anchored_match_iff_lang: "anchored_match e r s = (s \<in> anchored_lang e r)"
proof -
  have "(s \<noteq> [] \<and> last s = newline \<and> butlast s \<in> lang e r)
        = (\<exists>t. s = t @ [newline] \<and> t \<in> lang e r)"
    by (metis append_butlast_last_id butlast_snoc last_snoc snoc_eq_iff_butlast)
  then show ?thesis
    unfolding anchored_match_def anchored_lang_def fullmatch_iff_lang by auto
qed

lemma star_class: "star {[c] | c. P c} = {w. \<forall>x\<in>set w. P x}"
proof (intro set_eqI iffI)
  fix w assume "w \<in> star {[c] | c. P c}"
  then show "w \<in> {w. \<forall>x\<in>set w. P x}"
    by (induction rule: star.induct) auto
next
  fix w assume "w \<in> {w. \<forall>x\<in>set w. P x}"
  then have "\<forall>x\<in>set w. P x" by simp
  then show "w \<in> star {[c] | c. P c}"
  proof (induction w)
    case Nil
    show ?case by (rule star.star_empty)
  next
    case (Cons a w)
    then have "[a] \<in> {[c] | c. P c}" and "w \<in> star {[c] | c. P c}" by auto
    then have "[a] @ w \<in> star {[c] | c. P c}" by (rule star.star_app)
    then show ?case by simp
  qed
qed

lemma conc_cons_iff:
  "(c # w \<in> conc A B) =
     (([] \<in> A \<and> c # w \<in> B) \<or> (\<exists>xs ys. w = xs @ ys \<and> c # xs \<in> A \<and> ys \<in> B))"
proof
  assume "c # w \<in> conc A B"
  then obtain xs ys where xy: "c # w = xs @ ys" "xs \<in> A" "ys \<in> B"
    unfolding conc_def by blast
  show "([] \<in> A \<and> c # w \<in> B) \<or> (\<exists>xs ys. w = xs @ ys \<and> c # xs \<in> A \<and> ys \<in> B)"
  proof (cases xs)
    case Nil
    with xy show ?thesis by simp
  next
    case (Cons a as)
    with xy have "w = as @ ys" "c # as \<in> A" by simp_all
    with xy(3) show ?thesis by blast
  qed
next
  assume "([] \<in> A \<and> c # w \<in> B) \<or> (\<exists>xs ys. w = xs @ ys \<and> c # xs \<in> A \<and> ys \<in> B)"
  then show "c # w \<in> conc A B"
  proof
    assume "[] \<in> A \<and> c # w \<in> B"
    then have "[] @ (c # w) \<in> conc A B" unfolding conc_def by blast
    then show ?thesis by simp
  next
    assume "\<exists>xs ys. w = xs @ ys \<and> c # xs \<in> A \<and> ys \<in> B"
    then obtain xs ys where "w = xs @ ys" "c # xs \<in> A" "ys \<in> B" by blast
    then have "(c # xs) @ ys \<in> conc A B" and "c # w = (c # xs) @ ys"
      unfolding conc_def by (blast, simp)
    then show ?thesis by simp
  qed
qed

lemma conc_nil_iff: "([] \<in> conc A B) = ([] \<in> A \<and> [] \<in> B)"
  unfolding conc_def by simp

lemma lang_atom_seq: "lang e (Seq (Atom a) r) = {c # w | c w. atom_ok e a c \<and> w \<in> lang e r}"
proof (intro set_eqI)
  fix u show "(u \<in> lang e (Seq (Atom a) r)) = (u \<in> {c # w | c w. atom_ok e a c \<and> w \<in> lang e r})"
    by (cases u) (simp_all add: conc_cons_iff conc_nil_iff)
qed

lemma lang_lits: "lang e (lits cs r) = {cs @ w | w. w \<in> lang e r}"
proof (induction cs)
  case Nil
  show ?case by simp
next
  case (Cons c cs)
  show ?case unfolding lits.simps lang_atom_seq Cons.IH by auto
qed

lemma lang_class_star: "lang e (Star (Atom (NotIn True ''''))) = {w. \<forall>x\<in>set w. \<not> space e x}"
proof -
  have "star {[c] | c. atom_ok e (NotIn True '''') c} = {w. \<forall>x\<in>set w. atom_ok e (NotIn True '''') x}"
    by (rule star_class)
  then show ?thesis by simp
qed

lemma lang_url_tail:
  "lang e (Seq (Atom (NotIn True ''/$.?#'')) (Seq (Atom Dot) (Star (Atom (NotIn True '''')))))
     = {c # d # rest | c d rest.
          c \<notin> set ''/$.?#'' \<and> \<not> space e c \<and> d \<noteq> newline \<and> (\<forall>x\<in>set rest. \<not> space e x)}"
  unfolding lang_atom_seq lang_class_star by auto

lemma lang_opt_seq: "lang e (Seq (Opt (Atom (Lit a))) r) = lang e r \<union> {a # w | w. w \<in> lang e r}"
proof (intro set_eqI)
  fix u show "(u \<in> lang e (Seq (Opt (Atom (Lit a))) r)) = (u \<in> lang e r \<union> {a # w | w. w \<in> lang e r})"
    by (cases u) (auto simp add: conc_cons_iff conc_nil_iff)
qed

lemma lang_url_scheme:
  "lang e (lits ''http'' (Seq (Opt (Atom (Lit CHR ''s''))) (lits ''://'' r)))
     = {''http://'' @ w | w. w \<in> lang e r} \<union> {''https://'' @ w | w. w \<in> lang e r}"
  unfolding lang_lits lang_opt_seq by auto

lemma lang_target_url:
  "(s \<in> lang e target_url_regex) =
     (\<exists>c d rest. (s = ''http://'' @ c # d # rest \<or> s = ''https://'' @ c # d # rest)
        \<and> c \<notin> set ''/$.?#'' \<and> \<not> space e c \<and> d \<noteq> newline \<and> (\<forall>x\<in>set rest. \<not> space e x))"
  unfolding target_url_regex_def lang_url_scheme lang_url_tail by blast

section \<open>The target URL of a scan request\<close>

text \<open>The strings the declared pattern accepts, spelled out.\<close>

lemma anchored_lang_target_url:
  "(s \<in> anchored_lang e target_url_regex) =
     (\<exists>c d rest. (s = ''http://'' @ c # d # rest \<or> s = ''https://'' @ c # d # rest)
        \<and> c \<notin> set ''/$.?#'' \<and> \<not> space e c \<and> d \<noteq> newline
        \<and> ((\<forall>x\<in>set rest. \<not> space e x)
            \<or> (dollar_before_newline e \<and> rest \<noteq> [] \<and> last rest = newline
                \<and> (\<forall>x\<in>set (butlast rest). \<not> space e x))))"
  (is "?L = ?R")
proof
  assume ?L
  then consider (a) "s \<in> lang e target_url_regex"
    | (b) t where "dollar_before_newline e" "s = t @ [newline]" "t \<in> lang e target_url_regex"
    unfolding anchored_lang_def by (auto split: if_splits)
  then show ?R
  proof cases
    case a
    then show ?thesis unfolding lang_target_url by blast
  next
    case b
    from b(3) obtain c d rest where
      t: "t = ''http://'' @ c # d # rest \<or> t = ''https://'' @ c # d # rest"
      and c: "c \<notin> set ''/$.?#''" "\<not> space e c" "d \<noteq> newline"
      and r: "\<forall>x\<in>set rest. \<not> space e x"
      unfolding lang_target_url by blast
    let ?rest = "rest @ [newline]"
    have "s = ''http://'' @ c # d # ?rest \<or> s = ''https://'' @ c # d # ?rest"
      using t b(2) by auto
    moreover have "?rest \<noteq> []" "last ?rest = newline" "\<forall>x\<in>set (butlast ?rest). \<not> space e x"
      using r by simp_all
    ultimately show ?thesis using c b(1) by blast
  qed
next
  assume ?R
  then obtain c d rest where
    s: "s = ''http://'' @ c # d # rest \<or> s = ''https://'' @ c # d # rest"
    and c: "c \<notin> set ''/$.?#''" "\<not> space e c" "d \<noteq> newline"
    and r: "(\<forall>x\<in>set rest. \<not> space e x)
            \<or> (dollar_before_newline e \<and> rest \<noteq> [] \<and> last rest = newline
                \<and> (\<forall>x\<in>set (butlast rest). \<not> space e x))"
    by blast
  from r show ?L
  proof
    assume "\<forall>x\<in>set rest. \<not> space e x"
    with s c have "s \<in> lang e target_url_regex" unfolding lang_target_url by blast
    then show ?thesis unfolding anchored_lang_def by simp
  next
    assume h: "dollar_before_newline e \<and> rest \<noteq> [] \<and> last rest = newline
                \<and> (\<forall>x\<in>set (butlast rest). \<not> space e x)"
    define r' where "r' = butlast rest"
    have rest: "rest = r' @ [newline]"
      unfolding r'_def using h append_butlast_last_id [of rest] by simp
    have r': "\<forall>x\<in>set r'. \<not> space e x"
      unfolding r'_def using h by simp
    have in_lang: "''http://'' @ c # d # r' \<in> lang e target_url_regex"
                  "''https://'' @ c # d # r' \<in> lang e target_url_regex"
      unfolding lang_target_url using c r' by blast+
    from s show ?thesis
    proof
      assume "s = ''http://'' @ c # d # rest"
      then have "s = (''http://'' @ c # d # r') @ [newline]" unfolding rest by simp
      with in_lang(1) h show ?thesis unfolding anchored_lang_def by auto
    next
      assume "s = ''https://'' @ c # d # rest"
      then have "s = (''https://'' @ c # d # r') @ [newline]" unfolding rest by simp
      with in_lang(2) h show ?thesis unfolding anchored_lang_def by auto
    qed
  qed
qed

text \<open>
  C2. A scan request is meant to accept a target URL only if it matches the declared
  pattern, and so begins with \<^verbatim>\<open>http://\<close> or \<^verbatim>\<open>https://\<close>. The constructor does not check
  this: \<^verbatim>\<open>ftp://example.com/app\<close> is accepted, although the pattern does not match it
  (for either reading of \<^verbatim>\<open>$\<close> and any set of whitespace characters), it is outside the
  set the pattern denotes, and it begins with neither prefix.
\<close>

theorem ScanRequest_accepts_unmatched_url:
  "ScanRequest_init ''ftp://example.com/app'' None None None None
      = Inr \<lparr> rq_target_url = ''ftp://example.com/app'', rq_username = None,
               rq_password = None, rq_auth_token = None, rq_payload = None \<rparr>
   \<and> \<not> anchored_match e target_url_regex ''ftp://example.com/app''
   \<and> ''ftp://example.com/app'' \<notin> anchored_lang e target_url_regex
   \<and> \<not> prefix ''http://'' ''ftp://example.com/app''
   \<and> \<not> prefix ''https://'' ''ftp://example.com/app''"
proof -
  have acc: "ScanRequest_init ''ftp://example.com/app'' None None None None
      = Inr \<lparr> rq_target_url = ''ftp://example.com/app'', rq_username = None,
               rq_password = None, rq_auth_token = None, rq_payload = None \<rparr>"
    by (simp add: ScanRequest_init_def max_length_ok_def)
  have no_match: "\<not> anchored_match e target_url_regex ''ftp://example.com/app''"
    by (simp add: anchored_match_def fullmatch_def target_url_regex_def newline_def)
  then have outside: "''ftp://example.com/app'' \<notin> anchored_lang e target_url_regex"
    unfolding anchored_match_iff_lang .
  have "\<not> prefix ''http://'' ''ftp://example.com/app''"
    and "\<not> prefix ''https://'' ''ftp://example.com/app''"
    by simp_all
  with acc no_match outside show ?thesis by (intro conjI)
qed

text \<open>
  C10. The declared pattern rejects some strings that begin with \<^verbatim>\<open>http://\<close>: it does not
  match \<^verbatim>\<open>http://a\<close>, whatever the engine, since it asks for two characters after the
  scheme (\<open>anchored_lang_target_url\<close> above). The constructor does not apply the pattern,
  and accepts \<^verbatim>\<open>http://a\<close>.
\<close>

theorem ScanRequest_accepts_single_char_host:
  "prefix ''http://'' ''http://a''
   \<and> \<not> anchored_match e target_url_regex ''http://a''
   \<and> ''http://a'' \<notin> anchored_lang e target_url_regex
   \<and> ScanRequest_init ''http://a'' None None None None
        = Inr \<lparr> rq_target_url = ''http://a'', rq_username = None, rq_password = None,
                 rq_auth_token = None, rq_payload = None \<rparr>"
proof -
  have acc: "ScanRequest_init ''http://a'' None None None None
        = Inr \<lparr> rq_target_url = ''http://a'', rq_username = None, rq_password = None,
                 rq_auth_token = None, rq_payload = None \<rparr>"
    by (simp add: ScanRequest_init_def max_length_ok_def)
  have no_match: "\<not> anchored_match e target_url_regex ''http://a''"
    by (simp add: anchored_match_def fullmatch_def target_url_regex_def newline_def)
  then have outside: "''http://a'' \<notin> anchored_lang e target_url_regex"
    unfolding anchored_match_iff_lang .
  have "prefix ''http://'' ''http://a''" by simp
  with acc no_match outside show ?thesis by (intro conjI)
qed

section \<open>The store under the declared constraints\<close>

lemma col_wr [simp]:
  "col (WebResource_row r) ''id'' = opt_val SqlInt (wr_id r)"
  "col (WebResource_row r) ''scan_session_id'' = SqlInt (wr_scan_session_id r)"
  by (simp_all add: col_def WebResource_row_def)

lemma col_ss [simp]:
  "col (ScanSession_row s) ''id'' = opt_val SqlInt (ss_id s)"
  by (simp add: col_def ScanSession_row_def)

lemma opt_val_SqlInt_eq [simp]: "(opt_val SqlInt a = opt_val SqlInt b) = (a = b)"
  by (cases a; cases b) simp_all

lemma opt_val_SqlInt_Null [simp]: "(opt_val SqlInt a = SqlNull) = (a = None)" "(SqlNull = opt_val SqlInt a) = (a = None)"
  by (cases a; simp)+

lemma opt_val_SqlInt_Int [simp]: "(opt_val SqlInt a = SqlInt i) = (a = Some i)"
  by (cases a) simp_all

lemma violates_unique_wr:
  "violates_unique web_resources_decl (db_rows d (td_name web_resources_decl)) (WebResource_row r)
     = (wr_id r \<noteq> None \<and> wr_id r \<in> set (map wr_id (web_resources d)))"
  by (force simp: violates_unique_def unique_conflict_def key_def web_resources_decl_def
      db_rows_def list_ex_iff image_iff)

lemma violates_unique_ss:
  "violates_unique scan_sessions_decl (db_rows d (td_name scan_sessions_decl)) (ScanSession_row s)
     = (ss_id s \<noteq> None \<and> ss_id s \<in> set (map ss_id (scan_sessions d)))"
  by (force simp: violates_unique_def unique_conflict_def key_def scan_sessions_decl_def
      db_rows_def list_ex_iff image_iff)

lemma violates_foreign_key_wr:
  "violates_foreign_key (db_rows d) web_resources_decl (WebResource_row r)
     = (Some (wr_scan_session_id r) \<notin> set (map ss_id (scan_sessions d)))"
  by (auto simp: violates_foreign_key_def web_resources_decl_def db_rows_def list_ex_iff image_iff)

lemma violates_foreign_key_ss:
  "\<not> violates_foreign_key (db_rows d) scan_sessions_decl (ScanSession_row s)"
  by (simp add: violates_foreign_key_def scan_sessions_decl_def)

lemma refers_to_wr_no_action:
  "refers_to web_resources_decl (td_name scan_sessions_decl) (td_primary_key scan_sessions_decl)
       (SqlInt sid) NO_ACTION (WebResource_row r)
     = (wr_scan_session_id r = sid)"
  by (simp add: refers_to_def web_resources_decl_def scan_sessions_decl_def)

lemma refers_to_wr_cascade:
  "\<not> refers_to web_resources_decl (td_name scan_sessions_decl) (td_primary_key scan_sessions_decl)
       (SqlInt sid) CASCADE (WebResource_row r)"
  by (simp add: refers_to_def web_resources_decl_def scan_sessions_decl_def)

lemma next_id_fresh: "Some j \<in> set ids \<Longrightarrow> j < next_id ids"
  unfolding next_id_def by (induction ids) (auto split: option.splits)

lemma next_id_notin: "Some (next_id ids) \<notin> set ids"
  using next_id_fresh by fastforce

lemma insert_web_resource_eq:
  "insert_web_resource d r =
     (let i = (case wr_id r of None \<Rightarrow> next_id (map wr_id (web_resources d)) | Some i \<Rightarrow> i)
      in if Some i \<in> set (map wr_id (web_resources d))
            \<or> Some (wr_scan_session_id r) \<notin> set (map ss_id (scan_sessions d))
         then Inl IntegrityError
         else Inr (d\<lparr>web_resources := web_resources d @ [r\<lparr>wr_id := Some i\<rparr>]\<rparr>))"
proof (cases "wr_id r")
  case None
  then show ?thesis
    unfolding insert_web_resource_def insert_web_resource_under_def violates_unique_wr violates_foreign_key_wr
    by (simp add: Let_def)
next
  case (Some i)
  then have "r\<lparr>wr_id := Some i\<rparr> = r" by simp
  with Some show ?thesis
    unfolding insert_web_resource_def insert_web_resource_under_def violates_unique_wr violates_foreign_key_wr
    by (simp add: Let_def)
qed

lemma insert_scan_session_eq:
  "insert_scan_session d s =
     (let i = (case ss_id s of None \<Rightarrow> next_id (map ss_id (scan_sessions d)) | Some i \<Rightarrow> i)
      in if Some i \<in> set (map ss_id (scan_sessions d))
         then Inl IntegrityError
         else Inr (d\<lparr>scan_sessions := scan_sessions d @ [s\<lparr>ss_id := Some i\<rparr>]\<rparr>))"
proof (cases "ss_id s")
  case None
  then show ?thesis
    unfolding insert_scan_session_def violates_unique_ss
    by (simp add: Let_def violates_foreign_key_ss)
next
  case (Some i)
  then have "s\<lparr>ss_id := Some i\<rparr> = s" by simp
  with Some show ?thesis
    unfolding insert_scan_session_def violates_unique_ss
    by (simp add: Let_def violates_foreign_key_ss)
qed

lemma delete_scan_session_eq:
  "delete_scan_session d sid =
     (if \<exists>r\<in>set (web_resources d). wr_scan_session_id r = sid
      then Inl IntegrityError
      else Inr (d\<lparr>scan_sessions := filter (\<lambda>s. ss_id s \<noteq> Some sid) (scan_sessions d)\<rparr>))"
  unfolding delete_scan_session_def delete_scan_session_under_def refers_to_wr_no_action
  by (simp add: refers_to_wr_cascade list_ex_iff)

lemma wf_db_empty: "wf_db empty_db"
  by (simp add: wf_db_def empty_db_def)

lemma wf_db_insert_scan_session:
  assumes "wf_db d" and "insert_scan_session d s = Inr d'"
  shows "wf_db d'"
  using assms unfolding insert_scan_session_eq wf_db_def
  by (auto simp: Let_def list_all_iff next_id_notin split: if_splits option.splits)

lemma wf_db_insert_web_resource:
  assumes "wf_db d" and "insert_web_resource d r = Inr d'"
  shows "wf_db d'"
  using assms unfolding insert_web_resource_eq wf_db_def
  by (auto simp: Let_def list_all_iff next_id_notin split: if_splits option.splits)

lemma wf_db_delete_scan_session:
  assumes "wf_db d" and "delete_scan_session d sid = Inr d'"
  shows "wf_db d'"
proof -
  from assms(2) have none: "\<forall>r\<in>set (web_resources d). wr_scan_session_id r \<noteq> sid"
    and d': "d' = d\<lparr>scan_sessions := filter (\<lambda>s. ss_id s \<noteq> Some sid) (scan_sessions d)\<rparr>"
    unfolding delete_scan_session_eq by (auto split: if_splits)
  have "distinct (map ss_id (filter (\<lambda>s. ss_id s \<noteq> Some sid) (scan_sessions d)))"
    using assms(1) unfolding wf_db_def by (simp add: distinct_map_filter)
  moreover have "\<forall>r\<in>set (web_resources d).
      Some (wr_scan_session_id r) \<in> ss_id ` {s \<in> set (scan_sessions d). ss_id s \<noteq> Some sid}"
    using assms(1) none unfolding wf_db_def list_all_iff by force
  ultimately show ?thesis
    using assms(1) unfolding d' wf_db_def list_all_iff by auto
qed

lemma length_filter_distinct:
  "distinct (map f xs) \<Longrightarrow> v \<in> set (map f xs) \<Longrightarrow> length (filter (\<lambda>s. f s = v) xs) = 1"
proof (induction xs)
  case Nil
  then show ?case by simp
next
  case (Cons a xs)
  show ?case
  proof (cases "f a = v")
    case True
    with Cons.prems(1) have "v \<notin> f ` set xs" by simp
    then have "\<forall>s\<in>set xs. f s \<noteq> v" by blast
    then have "filter (\<lambda>s. f s = v) xs = []" by (simp add: filter_empty_conv)
    with True show ?thesis by simp
  next
    case False
    with Cons show ?thesis by auto
  qed
qed

lemma belongs_to_one_session:
  assumes "wf_db d" and "r \<in> set (web_resources d)"
  shows "length (filter (\<lambda>s. ss_id s = Some (wr_scan_session_id r)) (scan_sessions d)) = 1"
proof -
  have "distinct (map ss_id (scan_sessions d))"
    and "Some (wr_scan_session_id r) \<in> set (map ss_id (scan_sessions d))"
    using assms unfolding wf_db_def list_all_iff by auto
  then show ?thesis by (rule length_filter_distinct)
qed

lemma ex_defs_eval:
  "insert_scan_session empty_db ex_session = Inr ex_db1"
  "insert_web_resource ex_db1 ex_resource = Inr ex_db2"
  "insert_web_resource ex_db2 ex_resource = Inr ex_db3"
  unfolding insert_scan_session_eq insert_web_resource_eq
  by (simp_all add: empty_db_def ex_db1_def ex_db2_def ex_db3_def ex_session_def ex_resource_def
      ex_session_kwargs_def ex_resource_kwargs_def ScanSession_init_def WebResource_init_def
      next_id_def Let_def)

lemma wf_ex_db2: "wf_db ex_db2"
  using wf_db_empty ex_defs_eval(1,2) wf_db_insert_scan_session wf_db_insert_web_resource
  by blast

text \<open>
  The operations do check what a declaration lists: had \<^verbatim>\<open>web_resources\<close> declared a unique
  constraint on session id and URL, the second insertion of a resource would be refused,
  and had its foreign key declared \<^verbatim>\<open>CASCADE\<close>, deleting the session would delete the
  resource.
\<close>

lemma unique_constraint_would_refuse:
  "insert_web_resource_under (web_resources_decl\<lparr>td_unique := [[''scan_session_id'', ''url'']]\<rparr>)
     ex_db2 ex_resource = Inl IntegrityError"
  by (simp add: insert_web_resource_under_def violates_unique_def unique_conflict_def key_def
      col_def WebResource_row_def web_resources_decl_def db_rows_def ex_db2_def ex_db1_def
      ex_resource_def ex_resource_kwargs_def WebResource_init_def next_id_def)

lemma cascade_would_delete:
  "delete_scan_session_under
     (web_resources_decl\<lparr>td_foreign_keys :=
        [\<lparr> fk_column = ''scan_session_id'', fk_table = ''scan_sessions'', fk_target = ''id'',
           fk_ondelete = CASCADE \<rparr>]\<rparr>)
     ex_db2 1 = Inr empty_db"
  by (simp add: delete_scan_session_under_def refers_to_def col_def WebResource_row_def
      web_resources_decl_def scan_sessions_decl_def ex_db2_def ex_db1_def empty_db_def
      ex_resource_def ex_resource_kwargs_def WebResource_init_def)

section \<open>Uniqueness in \<^verbatim>\<open>web_resources\<close>\<close>

text \<open>
  The invariant of the spec, at most one web resource per session and URL, does not hold
  of the declared table. Starting from the empty store, a session is inserted, then the same
  resource twice: both insertions succeed, and the store holds two rows with the same
  session id and URL.
\<close>

theorem duplicate_session_url_accepted:
  "insert_scan_session empty_db ex_session = Inr ex_db1
   \<and> insert_web_resource ex_db1 ex_resource = Inr ex_db2
   \<and> insert_web_resource ex_db2 ex_resource = Inr ex_db3
   \<and> map session_url (web_resources ex_db3)
       = [(1, ''https://example.com/a.png''), (1, ''https://example.com/a.png'')]"
proof -
  have "map session_url (web_resources ex_db3)
       = [(1, ''https://example.com/a.png''), (1, ''https://example.com/a.png'')]"
    by (simp add: ex_db3_def ex_db1_def session_url_def ex_resource_def ex_resource_kwargs_def
        WebResource_init_def)
  then show ?thesis using ex_defs_eval by simp
qed

text \<open>
  C1 (as amended). The table \<^verbatim>\<open>web_resources\<close> enforces uniqueness of its primary key
  \<^verbatim>\<open>id\<close> only: after every successful insertion the ids of its rows are pairwise
  different (and the store is well formed). The pair of session id and URL is not
  constrained: inserting, with no id given, a resource with the session id and URL of
  a stored row succeeds, and adds a second row with that pair under a fresh id.
\<close>

theorem web_resources_unique_on_id_only:
  assumes "wf_db d"
  shows "(\<forall>d'. insert_web_resource d r = Inr d' \<longrightarrow>
            wf_db d' \<and> distinct (map wr_id (web_resources d')))
       \<and> (wr_id r = None \<and> r' \<in> set (web_resources d) \<and> session_url r = session_url r' \<longrightarrow>
            (\<exists>i. Some i \<notin> set (map wr_id (web_resources d))
               \<and> insert_web_resource d r
                    = Inr (d\<lparr>web_resources := web_resources d @ [r\<lparr>wr_id := Some i\<rparr>]\<rparr>)))"
proof (intro conjI allI impI)
  fix d' assume "insert_web_resource d r = Inr d'"
  with assms show "wf_db d'" by (rule wf_db_insert_web_resource)
  then show "distinct (map wr_id (web_resources d'))" unfolding wf_db_def by simp
next
  assume h: "wr_id r = None \<and> r' \<in> set (web_resources d) \<and> session_url r = session_url r'"
  let ?i = "next_id (map wr_id (web_resources d))"
  have fresh: "Some ?i \<notin> set (map wr_id (web_resources d))" by (rule next_id_notin)
  from h assms have "Some (wr_scan_session_id r') \<in> set (map ss_id (scan_sessions d))"
    unfolding wf_db_def list_all_iff by blast
  moreover from h have "wr_scan_session_id r = wr_scan_session_id r'"
    unfolding session_url_def by simp
  ultimately have "insert_web_resource d r
      = Inr (d\<lparr>web_resources := web_resources d @ [r\<lparr>wr_id := Some ?i\<rparr>]\<rparr>)"
    unfolding insert_web_resource_eq using h fresh by (simp add: Let_def)
  with fresh show "\<exists>i. Some i \<notin> set (map wr_id (web_resources d))
               \<and> insert_web_resource d r
                    = Inr (d\<lparr>web_resources := web_resources d @ [r\<lparr>wr_id := Some i\<rparr>]\<rparr>)"
    by blast
qed

theorem web_resources_unique_on_id_only_witness:
  "wf_db ex_db2 \<and> wf_db ex_db3
   \<and> wr_id ex_resource = None
   \<and> ex_resource\<lparr>wr_id := Some 1\<rparr> \<in> set (web_resources ex_db2)
   \<and> session_url ex_resource = session_url (ex_resource\<lparr>wr_id := Some 1\<rparr>)
   \<and> (\<exists>i. Some i \<notin> set (map wr_id (web_resources ex_db2))
          \<and> insert_web_resource ex_db2 ex_resource
               = Inr (ex_db2\<lparr>web_resources := web_resources ex_db2 @ [ex_resource\<lparr>wr_id := Some i\<rparr>]\<rparr>))"
proof -
  note t = web_resources_unique_on_id_only [OF wf_ex_db2, of ex_resource "ex_resource\<lparr>wr_id := Some 1\<rparr>"]
  have h1: "wr_id ex_resource = None"
    by (simp add: ex_resource_def WebResource_init_def ex_resource_kwargs_def)
  have h2: "ex_resource\<lparr>wr_id := Some 1\<rparr> \<in> set (web_resources ex_db2)"
    by (simp add: ex_db2_def)
  have h3: "session_url ex_resource = session_url (ex_resource\<lparr>wr_id := Some 1\<rparr>)"
    by (simp add: session_url_def)
  have w3: "wf_db ex_db3"
    using t [THEN conjunct1, THEN spec, THEN mp, OF ex_defs_eval(3)] by (rule conjunct1)
  show ?thesis
    using wf_ex_db2 w3 h1 h2 h3 t [THEN conjunct2, THEN mp, OF conjI [OF h1 conjI [OF h2 h3]]]
    by (intro conjI)
qed

section \<open>Deleting a session\<close>

text \<open>
  The cascade of the spec, deleting a session deletes its web resources, does not hold
  of the declared tables: in the store reached by inserting one session and one resource
  of it, deleting the session is refused, and the resource stays.
\<close>

theorem delete_scan_session_refused:
  "insert_scan_session empty_db ex_session = Inr ex_db1
   \<and> insert_web_resource ex_db1 ex_resource = Inr ex_db2
   \<and> map wr_scan_session_id (web_resources ex_db2) = [1]
   \<and> delete_scan_session ex_db2 1 = Inl IntegrityError"
proof -
  have "map wr_scan_session_id (web_resources ex_db2) = [1]"
    by (simp add: ex_db2_def ex_resource_def ex_resource_kwargs_def WebResource_init_def)
  moreover from this have "delete_scan_session ex_db2 1 = Inl IntegrityError"
    unfolding delete_scan_session_eq by (simp add: ex_db2_def)
  ultimately show ?thesis using ex_defs_eval(1,2) by simp
qed

text \<open>
  C4 (as amended). In a well-formed store every web resource refers to exactly one
  session. No cascade is declared: deleting a session that a web resource refers to
  fails with an integrity error (and deletes nothing); deleting a session that no web
  resource refers to removes that session only; and whenever a deletion succeeds, all
  web resources are unchanged and the store is well formed.
\<close>

theorem delete_scan_session_no_cascade:
  assumes "wf_db d"
  shows "(\<forall>r\<in>set (web_resources d).
            length (filter (\<lambda>s. ss_id s = Some (wr_scan_session_id r)) (scan_sessions d)) = 1)
       \<and> ((\<exists>r\<in>set (web_resources d). wr_scan_session_id r = sid) \<longrightarrow>
            delete_scan_session d sid = Inl IntegrityError)
       \<and> ((\<forall>r\<in>set (web_resources d). wr_scan_session_id r \<noteq> sid) \<longrightarrow>
            delete_scan_session d sid
              = Inr (d\<lparr>scan_sessions := filter (\<lambda>s. ss_id s \<noteq> Some sid) (scan_sessions d)\<rparr>))
       \<and> (\<forall>d'. delete_scan_session d sid = Inr d' \<longrightarrow>
            wf_db d' \<and> web_resources d' = web_resources d)"
proof (intro conjI ballI allI impI)
  fix r assume "r \<in> set (web_resources d)"
  with assms show "length (filter (\<lambda>s. ss_id s = Some (wr_scan_session_id r)) (scan_sessions d)) = 1"
    by (rule belongs_to_one_session)
next
  assume "\<exists>r\<in>set (web_resources d). wr_scan_session_id r = sid"
  then show "delete_scan_session d sid = Inl IntegrityError"
    unfolding delete_scan_session_eq by simp
next
  assume "\<forall>r\<in>set (web_resources d). wr_scan_session_id r \<noteq> sid"
  then show "delete_scan_session d sid
      = Inr (d\<lparr>scan_sessions := filter (\<lambda>s. ss_id s \<noteq> Some sid) (scan_sessions d)\<rparr>)"
    unfolding delete_scan_session_eq by simp
next
  fix d' assume del: "delete_scan_session d sid = Inr d'"
  with assms show "wf_db d'" by (rule wf_db_delete_scan_session)
  from del show "web_resources d' = web_resources d"
    unfolding delete_scan_session_eq by (auto split: if_splits)
qed

theorem delete_scan_session_no_cascade_witness:
  "wf_db ex_db2
   \<and> length (filter (\<lambda>s. ss_id s = Some (wr_scan_session_id (ex_resource\<lparr>wr_id := Some 1\<rparr>)))
        (scan_sessions ex_db2)) = 1
   \<and> delete_scan_session ex_db2 1 = Inl IntegrityError
   \<and> delete_scan_session ex_db2 2 = Inr ex_db2
   \<and> web_resources ex_db2 = [ex_resource\<lparr>wr_id := Some 1\<rparr>]"
proof -
  note t = delete_scan_session_no_cascade [OF wf_ex_db2]
  have res: "web_resources ex_db2 = [ex_resource\<lparr>wr_id := Some 1\<rparr>]"
    by (simp add: ex_db2_def)
  have sid: "wr_scan_session_id (ex_resource\<lparr>wr_id := Some 1\<rparr>) = 1"
    by (simp add: ex_resource_def ex_resource_kwargs_def WebResource_init_def)
  have mem: "ex_resource\<lparr>wr_id := Some 1\<rparr> \<in> set (web_resources ex_db2)"
    unfolding res by simp
  have ex1: "\<exists>r\<in>set (web_resources ex_db2). wr_scan_session_id r = 1"
    using mem sid by blast
  have all2: "\<forall>r\<in>set (web_resources ex_db2). wr_scan_session_id r \<noteq> 2"
    unfolding res using sid by simp
  have same: "ex_db2\<lparr>scan_sessions := filter (\<lambda>s. ss_id s \<noteq> Some 2) (scan_sessions ex_db2)\<rparr> = ex_db2"
    by (simp add: ex_db2_def ex_db1_def)
  have d2: "delete_scan_session ex_db2 2 = Inr ex_db2"
    using t [of 2, THEN conjunct2, THEN conjunct2, THEN conjunct1, THEN mp, OF all2]
    unfolding same .
  show ?thesis
    using wf_ex_db2 t [of 1, THEN conjunct1, THEN bspec, OF mem]
      t [of 1, THEN conjunct2, THEN conjunct1, THEN mp, OF ex1] d2 res
    by (intro conjI)
qed

section \<open>Error messages\<close>

lemma col_dh [simp]:
  "col (DownloadHistory_row h) ''id'' = opt_val SqlInt (dh_id h)"
  "col (DownloadHistory_row h) ''resource_id'' = SqlInt (dh_resource_id h)"
  by (simp_all add: col_def DownloadHistory_row_def)














lemma ScanStatusUpdate_error_message_bounded:
  "ScanStatusUpdate_init st msg n dur = Inr u \<Longrightarrow> su_error_message u = msg \<and> max_length_ok 1000 msg"
  by (auto simp: ScanStatusUpdate_init_def split: if_splits)

section \<open>The life cycle of a scan session, proved\<close>

lemma status_steps_rank: "status_step\<^sup>*\<^sup>* a b \<Longrightarrow> status_rank a \<le> status_rank b"
proof (induction rule: rtranclp_induct)
  case base
  show ?case by simp
next
  case (step b c)
  from step.hyps(2) have "status_rank b \<le> status_rank c"
    by (cases b; cases c) simp_all
  with step.IH show ?case by simp
qed

lemma terminal_no_step: "status_step a b \<Longrightarrow> \<not> terminal a"
  by (cases a; cases b) (simp_all add: terminal_def)

lemma terminal_final: "status_step\<^sup>*\<^sup>* a b \<Longrightarrow> terminal a \<Longrightarrow> b = a"
  by (induction rule: rtranclp_induct) (auto dest: terminal_no_step)

text \<open>
  C3. The status of a session is one of pending, in progress, completed and failed.
  Along any sequence of transitions of the life cycle the status never moves back
  (its rank does not decrease), a session in a terminal state stays in that state, and
  no transition leaves a terminal state.
\<close>

theorem ScanStatus_life_cycle:
  "ss_status s \<in> {PENDING, IN_PROGRESS, COMPLETED, FAILED}
   \<and> (status_step\<^sup>*\<^sup>* a b \<longrightarrow> status_rank a \<le> status_rank b)
   \<and> (terminal a \<and> status_step\<^sup>*\<^sup>* a b \<longrightarrow> b = a)
   \<and> (terminal a \<longrightarrow> \<not> status_step a b)"
proof (intro conjI impI)
  show "ss_status s \<in> {PENDING, IN_PROGRESS, COMPLETED, FAILED}"
    by (cases "ss_status s") simp_all
  show "status_rank a \<le> status_rank b" if "status_step\<^sup>*\<^sup>* a b"
    using that by (rule status_steps_rank)
  show "b = a" if "terminal a \<and> status_step\<^sup>*\<^sup>* a b"
    using that terminal_final by blast
  show "\<not> status_step a b" if "terminal a"
    using that terminal_no_step by blast
qed

theorem ScanStatus_life_cycle_witness:
  "status_step\<^sup>*\<^sup>* PENDING FAILED
   \<and> status_rank PENDING \<le> status_rank FAILED
   \<and> terminal FAILED
   \<and> \<not> status_step FAILED PENDING
   \<and> \<not> status_step\<^sup>*\<^sup>* FAILED PENDING"
proof -
  have run: "status_step\<^sup>*\<^sup>* PENDING FAILED"
  proof -
    have "status_step PENDING IN_PROGRESS" "status_step IN_PROGRESS FAILED" by simp_all
    then show ?thesis by (meson rtranclp.rtrancl_into_rtrancl rtranclp.rtrancl_refl)
  qed
  have fin: "terminal FAILED" by (simp add: terminal_def)
  note t = ScanStatus_life_cycle [of _ FAILED PENDING]
  have no_return: "\<not> status_step\<^sup>*\<^sup>* FAILED PENDING"
  proof
    assume "status_step\<^sup>*\<^sup>* FAILED PENDING"
    with fin t [THEN conjunct2, THEN conjunct2, THEN conjunct1] have "PENDING = FAILED" by blast
    then show False by simp
  qed
  note t' = ScanStatus_life_cycle [of _ PENDING FAILED]
  show ?thesis
    using run t' [THEN conjunct2, THEN conjunct1, THEN mp, OF run] fin
      t [THEN conjunct2, THEN conjunct2, THEN conjunct2, THEN mp, OF fin] no_return
    by (intro conjI)
qed

end
